theory Spec2Isabelle
  imports Main "HOL-Library.Word"
begin

section \<open>The hub connection of hubconnection.go\<close>

text \<open>
  The engine \<^verbatim>\<open>defaultHubConnection\<close> runs several goroutines against one mutex and
  one cancellation context. The embedding keeps the code's own structure:
  \<^item> the struct is a record; the effects the claims talk about (messages handed to
    \<^verbatim>\<open>protocol.WriteMessage\<close>, sends started on the abort channels, log records) are
    lists inside that record, oldest entry first;
  \<^item> a Go \<^verbatim>\<open>error\<close> value is an \<open>error option\<close>, \<open>None\<close> being \<^verbatim>\<open>nil\<close>;
  \<^item> a call that may never come back (a transport read or write that blocks, a
    \<^verbatim>\<open>select\<close> with no ready case) has an \<open>outcome\<close>: \<open>Blocks\<close> or \<open>Returns v\<close>;
  \<^item> what the environment and the scheduler decide (what a read or a write yields, a
    cancellation arriving from another goroutine, which ready case a \<^verbatim>\<open>select\<close>
    takes) is an explicit argument of the operation, so every operation is a function.
\<close>

subsection \<open>Errors, contexts, outcomes\<close>

type_synonym byte = "8 word"
type_synonym time = nat
type_synonym chan = nat

text \<open>
  \<open>Canceled\<close> and \<open>DeadlineExceeded\<close> are the two errors of package \<^verbatim>\<open>context\<close>;
  \<open>Failure\<close> stands for an error of the transport or the codec; \<open>Wrapped msg e\<close> is the
  error \<^verbatim>\<open>eris.Wrap(e, msg)\<close>.
\<close>

datatype error = Canceled | DeadlineExceeded | Failure string | Wrapped string error

text \<open>
  \<^verbatim>\<open>eris.Wrap\<close> (github.com/rotisserie/eris) starts with
  \<^verbatim>\<open>if err == nil { return nil }\<close>: wrapping \<^verbatim>\<open>nil\<close> gives \<^verbatim>\<open>nil\<close>.
\<close>

definition eris_Wrap :: "error option \<Rightarrow> string \<Rightarrow> error option" where
  "eris_Wrap err msg = (case err of None \<Rightarrow> None | Some e \<Rightarrow> Some (Wrapped msg e))"

datatype 'a outcome = Blocks | Returns 'a

text \<open>The two cases of each \<^verbatim>\<open>select\<close> of the file: \<^verbatim>\<open><-c.ctx.Done()\<close> and the result channel.\<close>

datatype select_case = CaseDone | CaseChan

text \<open>
  A \<^verbatim>\<open>select\<close> over the two cases, given which of them can proceed. When both can, Go
  takes one by a pseudo-random choice, here \<open>pick\<close>; when none can, the goroutine parks.
\<close>

definition select2 :: "select_case \<Rightarrow> bool \<Rightarrow> bool \<Rightarrow> select_case outcome" where
  "select2 pick done_ready chan_ready =
     (if done_ready \<and> chan_ready then Returns pick
      else if done_ready then Returns CaseDone
      else if chan_ready then Returns CaseChan
      else Blocks)"

subsection \<open>Messages\<close>

text \<open>
  Modelled from the spec: the struct declarations \<^verbatim>\<open>hubMessage\<close>,
  \<^verbatim>\<open>invocationMessage\<close>, \<^verbatim>\<open>streamItemMessage\<close>, \<^verbatim>\<open>completionMessage\<close> and
  \<^verbatim>\<open>closeMessage\<close> are not among the source files; the fields are the ones the
  composite literals of hubconnection.go set and section 6 of the specification lists.
  \<open>'v\<close> is the type of the \<^verbatim>\<open>interface{}\<close> payloads; a nil slice is the empty list.
\<close>

datatype 'v message =
    hubMessage (Type: int)
  | invocationMessage (Type: int) (InvocationID: string) (Target: string)
      (Arguments: "'v list") (StreamIds: "string list")
  | streamItemMessage (Type: int) (InvocationID: string) (Item: 'v)
  | completionMessage (Type: int) (InvocationID: string) (Result: 'v) (Error: string)
  | closeMessage (Type: int) (Error: string) (AllowReconnect: bool)

subsection \<open>The connection\<close>

text \<open>
  \<open>ctxErr\<close> is \<^verbatim>\<open>c.ctx.Err()\<close> and \<open>connCtxErr\<close> is \<^verbatim>\<open>c.connection.Context().Err()\<close>:
  \<open>None\<close> while the context is live. \<open>watching\<close> says that the goroutine started by
  \<^verbatim>\<open>newHubConnection\<close> is still waiting at \<^verbatim>\<open><-c.ctx.Done()\<close>.
\<close>

record 'v hub =
  connected :: bool
  abortChans :: "chan list"
  maximumReceiveMessageSize :: nat
  lastWriteStamp :: time
  ctxErr :: "error option"
  connCtxErr :: "error option"
  watching :: bool
  written :: "'v message list"
  delivered :: "(chan \<times> error option) list"
  logged :: "('v message \<times> error) list"

text \<open>
  \<^verbatim>\<open>context.WithCancel(connection.Context())\<close>: the child context is ended from the
  start when the parent is. \<open>connected\<close> and \<open>lastWriteStamp\<close> have Go's zero values.
\<close>

definition newHubConnection :: "error option \<Rightarrow> nat \<Rightarrow> 'v hub" where
  "newHubConnection parentErr maxSize =
     \<lparr>connected = False, abortChans = [], maximumReceiveMessageSize = maxSize,
      lastWriteStamp = 0, ctxErr = parentErr, connCtxErr = parentErr, watching = True,
      written = [], delivered = [], logged = []\<rparr>"

definition Start :: "'v hub \<Rightarrow> 'v hub" where
  "Start c = c\<lparr>connected := True\<rparr>"

definition IsConnected :: "'v hub \<Rightarrow> bool" where
  "IsConnected c = connected c"

definition LastWriteStamp :: "'v hub \<Rightarrow> time" where
  "LastWriteStamp c = lastWriteStamp c"

text \<open>The cancel function of \<^verbatim>\<open>context.WithCancel\<close>: only the first end of a context counts.\<close>

definition cancelFunc :: "'v hub \<Rightarrow> 'v hub" where
  "cancelFunc c = (case ctxErr c of None \<Rightarrow> c\<lparr>ctxErr := Some Canceled\<rparr> | Some _ \<Rightarrow> c)"

definition Abort :: "'v hub \<Rightarrow> 'v hub" where
  "Abort c = cancelFunc c"

text \<open>
  The transport's own context ends with error \<open>e\<close> (its first end counts); the end
  reaches the derived context in the same step, which takes the parent's error unless it
  has ended before.
\<close>

definition upstreamDone :: "error \<Rightarrow> 'v hub \<Rightarrow> 'v hub" where
  "upstreamDone e c =
     (let parentErr = (case connCtxErr c of None \<Rightarrow> e | Some x \<Rightarrow> x)
      in c\<lparr>connCtxErr := Some parentErr,
           ctxErr := (case ctxErr c of None \<Rightarrow> Some parentErr | Some x \<Rightarrow> Some x)\<rparr>)"

text \<open>A cancellation that reaches a running operation from outside it.\<close>

datatype cancel_event = ByAbort | ByUpstream error

definition cancel_by :: "cancel_event \<Rightarrow> 'v hub \<Rightarrow> 'v hub" where
  "cancel_by ev c = (case ev of ByAbort \<Rightarrow> Abort c | ByUpstream e \<Rightarrow> upstreamDone e c)"

text \<open>
  One scheduling of the goroutine of \<^verbatim>\<open>newHubConnection\<close> (lines 44 to 57). It stays
  parked while the context is live, and it runs its body once.
\<close>

definition watcher :: "'v hub \<Rightarrow> 'v hub" where
  "watcher c =
     (if watching c \<and> ctxErr c \<noteq> None then
        (if connected c then
           c\<lparr>watching := False,
             delivered := delivered c @
               map (\<lambda>ch. (ch, eris_Wrap (connCtxErr c) ''connection canceled'')) (abortChans c),
             abortChans := [],
             connected := False\<rparr>
         else c\<lparr>watching := False\<rparr>)
      else c)"

subsection \<open>Close and the guarded send path\<close>

text \<open>
  \<open>wres\<close> is what \<^verbatim>\<open>protocol.WriteMessage\<close> does on this call: it returns an error
  value, or it never returns.
\<close>

definition Close :: "string \<Rightarrow> bool \<Rightarrow> error option outcome \<Rightarrow> 'v hub
    \<Rightarrow> error option outcome \<times> 'v hub" where
  "Close errorText allowReconnect wres c =
     (let closeMsg = closeMessage 7 errorText allowReconnect
      in (wres, c\<lparr>written := written c @ [closeMsg]\<rparr>))"

text \<open>
  The environment of one call of \<^verbatim>\<open>writeMessage\<close>, from the connectivity check to the
  moment its \<^verbatim>\<open>select\<close> takes a case:
  \<^item> \<open>arrives\<close>: a cancellation from outside the call in that interval, if any;
  \<^item> \<open>wres\<close>: what \<^verbatim>\<open>protocol.WriteMessage\<close> does;
  \<^item> \<open>write_finished\<close>: the write goroutine has already put its result into \<^verbatim>\<open>e\<close> at
    that moment (otherwise the write is still in flight);
  \<^item> \<open>pick\<close>: Go's choice when both cases are ready.
\<close>

record send_env =
  arrives :: "cancel_event option"
  wres :: "error option outcome"
  write_finished :: bool
  pick :: select_case

text \<open>Lines 243 to 246: a failure is logged with the message, then returned.\<close>

definition finish :: "'v message \<Rightarrow> error option \<Rightarrow> 'v hub \<Rightarrow> error option outcome \<times> 'v hub" where
  "finish message err c =
     (case err of
        None \<Rightarrow> (Returns None, c)
      | Some e \<Rightarrow> (Returns (Some e), c\<lparr>logged := logged c @ [(message, e)]\<rparr>))"

text \<open>
  Lines 221 to 247. When no case of the \<^verbatim>\<open>select\<close> is ready the goroutine parks; no
  cancellation arrives in that run, so it is the write's result that wakes it.
\<close>

definition writeMessage :: "time \<Rightarrow> send_env \<Rightarrow> 'v message \<Rightarrow> 'v hub
    \<Rightarrow> error option outcome \<times> 'v hub" where
  "writeMessage now env message c =
     (let c1 = c\<lparr>lastWriteStamp := now\<rparr> in
      if \<not> IsConnected c1 then
        finish message (eris_Wrap (ctxErr c1) ''hubConnection canceled'') c1
      else
        let c2 = c1\<lparr>written := written c1 @ [message]\<rparr>;
            c3 = (case arrives env of None \<Rightarrow> c2 | Some ev \<Rightarrow> cancel_by ev c2)
        in
          (case select2 (pick env) (ctxErr c3 \<noteq> None)
                  (write_finished env \<and> wres env \<noteq> Blocks) of
             Returns CaseDone \<Rightarrow>
               (case wres env of
                  Blocks \<Rightarrow> (Blocks, c3)
                | Returns _ \<Rightarrow> finish message (eris_Wrap (ctxErr c3) ''hubConnection canceled'') c3)
           | _ \<Rightarrow>
               (case wres env of
                  Blocks \<Rightarrow> (Blocks, c3)
                | Returns err \<Rightarrow>
                    finish message err (if err \<noteq> None then Abort c3 else c3))))"

definition SendInvocation :: "time \<Rightarrow> send_env \<Rightarrow> string \<Rightarrow> string \<Rightarrow> 'v list \<Rightarrow> 'v hub
    \<Rightarrow> error option outcome \<times> 'v hub" where
  "SendInvocation now env invId target args c =
     writeMessage now env (invocationMessage 1 invId target args []) c"

definition SendStreamInvocation :: "time \<Rightarrow> send_env \<Rightarrow> string \<Rightarrow> string \<Rightarrow> 'v list
    \<Rightarrow> string list \<Rightarrow> 'v hub \<Rightarrow> error option outcome \<times> 'v hub" where
  "SendStreamInvocation now env invId target args streamIds c =
     writeMessage now env (invocationMessage 4 invId target args streamIds) c"

definition StreamItem :: "time \<Rightarrow> send_env \<Rightarrow> string \<Rightarrow> 'v \<Rightarrow> 'v hub
    \<Rightarrow> error option outcome \<times> 'v hub" where
  "StreamItem now env invId item c = writeMessage now env (streamItemMessage 2 invId item) c"

definition Completion :: "time \<Rightarrow> send_env \<Rightarrow> string \<Rightarrow> 'v \<Rightarrow> string \<Rightarrow> 'v hub
    \<Rightarrow> error option outcome \<times> 'v hub" where
  "Completion now env invId result err c =
     writeMessage now env (completionMessage 3 invId result err) c"

definition Ping :: "time \<Rightarrow> send_env \<Rightarrow> 'v hub \<Rightarrow> error option outcome \<times> 'v hub" where
  "Ping now env c = writeMessage now env (hubMessage 6) c"

subsection \<open>Receive\<close>

text \<open>The \<^verbatim>\<open>interface{}\<close> values \<^verbatim>\<open>Receive\<close> returns: \<^verbatim>\<open>nil\<close>, a decoded message, or the
  byte count that line 138 puts into the \<open>message\<close> field of a read result.\<close>

datatype 'm iface = NilValue | MessageValue 'm | IntValue nat

text \<open>
  \<^verbatim>\<open>protocol.ReadMessage(&buf)\<close>: the codec is a parameter. It gets the accumulation
  buffer and yields \<open>(message, complete, err)\<close> and the buffer as it leaves it.
\<close>

type_synonym 'm codec = "byte list \<Rightarrow> ('m iface \<times> bool \<times> error option) \<times> byte list"

text \<open>
  What happens at one transport read of the loop, up to the inner \<^verbatim>\<open>select\<close>:
  \<^item> \<open>ReadOk chunk\<close>: \<^verbatim>\<open>connection.Read(data)\<close> delivers \<open>chunk\<close>, cut to the length of
    \<^verbatim>\<open>data\<close>, without error;
  \<^item> \<open>ReadErr k e\<close>: it returns \<open>(k, e)\<close> with error \<open>e\<close>;
  \<^item> \<open>CtxEnds ev\<close>: the context ends by \<open>ev\<close> while the read is in flight.
  A list of them is what the transport and the other goroutines do during one call; when
  the list is used up the next read never returns.
\<close>

datatype read_event = ReadOk "byte list" | ReadErr nat error | CtxEnds cancel_event

text \<open>
  The loop of lines 126 to 160 together with the outer \<^verbatim>\<open>select\<close> of lines 162 to 167.
  \<open>buf\<close>, \<open>data\<close> and \<open>n\<close> are the variables of that name. After a failed read the loop
  calls \<^verbatim>\<open>Abort\<close> and then sends the result, so both cases of the outer \<^verbatim>\<open>select\<close>
  are ready and the choice \<open>sel\<close> decides.
\<close>

fun recv_loop :: "'m codec \<Rightarrow> select_case \<Rightarrow> byte list \<Rightarrow> byte list \<Rightarrow> nat
    \<Rightarrow> read_event list \<Rightarrow> 'v hub \<Rightarrow> ('m iface \<times> error option) outcome \<times> 'v hub" where
  "recv_loop ReadMessage sel buf data n evs c =
     (case ReadMessage buf of
        ((message, complete, parseErr), buf1) \<Rightarrow>
          if complete then (Returns (message, parseErr), c)
          else
            let buf2 = buf1 @ take n data in
            (case evs of
               [] \<Rightarrow> (Blocks, c)
             | ReadOk chunk # evs' \<Rightarrow>
                 let n' = min (length chunk) (length data);
                     data' = take n' chunk @ drop n' data;
                     buf3 = buf2 @ take n' data'
                 in recv_loop ReadMessage sel buf3 data' n' evs' c
             | ReadErr k e # evs' \<Rightarrow>
                 let c' = Abort c in
                 (case select2 sel (ctxErr c' \<noteq> None) True of
                    Returns CaseChan \<Rightarrow> (Returns (IntValue k, Some e), c')
                  | _ \<Rightarrow>
                    (Returns (NilValue, eris_Wrap (ctxErr c') ''hubConnection canceled''), c'))
             | CtxEnds ev # evs' \<Rightarrow>
                 let c' = cancel_by ev c in
                 (Returns (NilValue, eris_Wrap (ctxErr c') ''hubConnection canceled''), c')))"

definition Receive :: "'m codec \<Rightarrow> select_case \<Rightarrow> read_event list \<Rightarrow> 'v hub
    \<Rightarrow> ('m iface \<times> error option) outcome \<times> 'v hub" where
  "Receive ReadMessage sel evs c =
     (if ctxErr c \<noteq> None then
        (Returns (NilValue, eris_Wrap (ctxErr c) ''hubConnection canceled''), c)
      else recv_loop ReadMessage sel [] (replicate (maximumReceiveMessageSize c) 0) 0 evs c)"

text \<open>
  Modelled from the spec: the implementations of \<^verbatim>\<open>HubProtocol\<close> are not among the
  source files. \<open>codec_needs k\<close> is a codec that completes a message once the buffer
  holds \<open>k\<close> bytes and that, while the message is incomplete, reads the buffer empty:
  what the comment of line 129 says of \<^verbatim>\<open>ReadMessage\<close> and section 4.4 of the
  specification allows. \<open>codec_keeps k\<close> leaves an incomplete buffer as it is.
\<close>

definition codec_needs :: "nat \<Rightarrow> (byte list) codec" where
  "codec_needs k buf =
     (if k \<le> length buf then ((MessageValue (take k buf), True, None), drop k buf)
      else ((NilValue, False, None), []))"

definition codec_keeps :: "nat \<Rightarrow> (byte list) codec" where
  "codec_keeps k buf =
     (if k \<le> length buf then ((MessageValue (take k buf), True, None), drop k buf)
      else ((NilValue, False, None), buf))"

subsection \<open>Sequences of operations\<close>

text \<open>
  The methods of the interface that change the connection, and the two steps that are
  not calls: the end of the transport's context and a run of the watcher goroutine.
\<close>

datatype ('v, 'm) op =
    OpStart
  | OpAbort
  | OpUpstreamDone error
  | OpWatcher
  | OpClose string bool "error option outcome"
  | OpSendInvocation time send_env string string "'v list"
  | OpSendStreamInvocation time send_env string string "'v list" "string list"
  | OpStreamItem time send_env string 'v
  | OpCompletion time send_env string 'v string
  | OpPing time send_env
  | OpReceive "'m codec" select_case "read_event list"

fun exec :: "('v, 'm) op \<Rightarrow> 'v hub \<Rightarrow> 'v hub" where
  "exec OpStart c = Start c"
| "exec OpAbort c = Abort c"
| "exec (OpUpstreamDone e) c = upstreamDone e c"
| "exec OpWatcher c = watcher c"
| "exec (OpClose errorText allowReconnect w) c = snd (Close errorText allowReconnect w c)"
| "exec (OpSendInvocation now env invId target args) c =
     snd (SendInvocation now env invId target args c)"
| "exec (OpSendStreamInvocation now env invId target args streamIds) c =
     snd (SendStreamInvocation now env invId target args streamIds c)"
| "exec (OpStreamItem now env invId item) c = snd (StreamItem now env invId item c)"
| "exec (OpCompletion now env invId result err) c = snd (Completion now env invId result err c)"
| "exec (OpPing now env) c = snd (Ping now env c)"
| "exec (OpReceive ReadMessage sel evs) c = snd (Receive ReadMessage sel evs c)"

text \<open>The states a sequence of operations goes through, the starting state first.\<close>

fun states :: "('v, 'm) op list \<Rightarrow> 'v hub \<Rightarrow> 'v hub list" where
  "states [] c = [c]"
| "states (x # xs) c = c # states xs (exec x c)"

text \<open>How often a sequence of truth values goes from true to false.\<close>

fun falls :: "bool list \<Rightarrow> nat" where
  "falls (a # b # bs) = (if a \<and> \<not> b then 1 else 0) + falls (b # bs)"
| "falls _ = 0"

section \<open>Properties\<close>

subsection \<open>What the cancellation steps and the send path leave alone\<close>

lemma Abort_keeps [simp]:
  "connected (Abort c) = connected c" "watching (Abort c) = watching c"
  "written (Abort c) = written c" "lastWriteStamp (Abort c) = lastWriteStamp c"
  "abortChans (Abort c) = abortChans c" "delivered (Abort c) = delivered c"
  "connCtxErr (Abort c) = connCtxErr c"
  by (simp_all add: Abort_def cancelFunc_def split: option.splits)

lemma Abort_ends [simp]:
  "ctxErr (Abort c) = Some (case ctxErr c of None \<Rightarrow> Canceled | Some x \<Rightarrow> x)"
  by (simp add: Abort_def cancelFunc_def split: option.splits)

lemma upstreamDone_keeps [simp]:
  "connected (upstreamDone e c) = connected c" "watching (upstreamDone e c) = watching c"
  "written (upstreamDone e c) = written c"
  "lastWriteStamp (upstreamDone e c) = lastWriteStamp c"
  "abortChans (upstreamDone e c) = abortChans c" "delivered (upstreamDone e c) = delivered c"
  by (simp_all add: upstreamDone_def Let_def)

lemma upstreamDone_ends [simp]: "ctxErr (upstreamDone e c) \<noteq> None"
  by (simp add: upstreamDone_def Let_def split: option.splits)

lemma cancel_by_keeps [simp]:
  "connected (cancel_by ev c) = connected c" "watching (cancel_by ev c) = watching c"
  "written (cancel_by ev c) = written c" "lastWriteStamp (cancel_by ev c) = lastWriteStamp c"
  "abortChans (cancel_by ev c) = abortChans c" "delivered (cancel_by ev c) = delivered c"
  by (simp_all add: cancel_by_def split: cancel_event.splits)

lemma cancel_by_ends [simp]: "ctxErr (cancel_by ev c) \<noteq> None"
  by (cases ev) (simp_all add: cancel_by_def upstreamDone_def Let_def split: option.splits)

lemma finish_keeps [simp]:
  "connected (snd (finish m err c)) = connected c"
  "watching (snd (finish m err c)) = watching c"
  "written (snd (finish m err c)) = written c"
  "lastWriteStamp (snd (finish m err c)) = lastWriteStamp c"
  "abortChans (snd (finish m err c)) = abortChans c"
  "delivered (snd (finish m err c)) = delivered c"
  "ctxErr (snd (finish m err c)) = ctxErr c"
  "connCtxErr (snd (finish m err c)) = connCtxErr c"
  "fst (finish m err c) = Returns err"
  by (simp_all add: finish_def split: option.splits)

lemma writeMessage_stamp: "lastWriteStamp (snd (writeMessage now env m c)) = now"
  by (simp add: writeMessage_def IsConnected_def Let_def
      split: outcome.splits select_case.splits option.splits)

lemma writeMessage_keeps:
  "connected (snd (writeMessage now env m c)) = connected c"
  "watching (snd (writeMessage now env m c)) = watching c"
  "abortChans (snd (writeMessage now env m c)) = abortChans c"
  "delivered (snd (writeMessage now env m c)) = delivered c"
  by (simp_all add: writeMessage_def IsConnected_def Let_def
      split: outcome.splits select_case.splits option.splits)

lemma writeMessage_written:
  "written (snd (writeMessage now env m c)) =
     (if connected c then written c @ [m] else written c)"
  by (simp add: writeMessage_def IsConnected_def Let_def
      split: outcome.splits select_case.splits option.splits)

text \<open>
  A send that finds the connection not connected writes nothing and returns what
  \<^verbatim>\<open>eris.Wrap\<close> makes of \<^verbatim>\<open>c.ctx.Err()\<close>: a failure once the context has ended.
\<close>

lemma writeMessage_rejects:
  "\<not> connected c \<Longrightarrow>
     fst (writeMessage now env m c) = Returns (eris_Wrap (ctxErr c) ''hubConnection canceled'')"
  by (simp add: writeMessage_def IsConnected_def Let_def)

lemma writeMessage_rejects_ended:
  "\<not> connected c \<Longrightarrow> ctxErr c = Some e \<Longrightarrow>
     fst (writeMessage now env m c) = Returns (Some (Wrapped ''hubConnection canceled'' e)) \<and>
     written (snd (writeMessage now env m c)) = written c"
  by (simp add: writeMessage_rejects writeMessage_written eris_Wrap_def)

lemmas sends =
  SendInvocation_def SendStreamInvocation_def StreamItem_def Completion_def Ping_def

subsection \<open>The guarded send path\<close>

text \<open>
  C1 (the code departs from the claim). Claim: every guarded send invoked while
  \<open>connected\<close> is false, for example before \<^verbatim>\<open>Start\<close>, returns a Not-Connected failure
  and never invokes \<^verbatim>\<open>WriteMessage\<close>. On a connection that was never started and
  whose context is live, each of the five sends hands nothing to the codec, but it
  returns \<^verbatim>\<open>nil\<close>, not a failure: line 227 wraps \<^verbatim>\<open>c.ctx.Err()\<close>, which is
  \<^verbatim>\<open>nil\<close> there.
\<close>

theorem send_before_Start_returns_nil:
  "fst (SendInvocation now env invId target args (newHubConnection None maxSize)) = Returns None \<and>
   fst (SendStreamInvocation now env invId target args streamIds
          (newHubConnection None maxSize)) = Returns None \<and>
   fst (StreamItem now env invId item (newHubConnection None maxSize)) = Returns None \<and>
   fst (Completion now env invId result err (newHubConnection None maxSize)) = Returns None \<and>
   fst (Ping now env (newHubConnection None maxSize)) = Returns None \<and>
   written (snd (Ping now env (newHubConnection None maxSize))) = [] \<and>
   logged (snd (Ping now env (newHubConnection None maxSize))) = []"
  by (simp add: sends writeMessage_def IsConnected_def newHubConnection_def eris_Wrap_def
      finish_def)



text \<open>
  C7. Each public send operation hands to the codec exactly one message, built with its
  protocol tag and the supplied fields, unchanged: on a connected connection for the
  five guarded sends, on any connection for \<^verbatim>\<open>Close\<close>.
\<close>

theorem sends_build_their_message:
  assumes "IsConnected c"
  shows "written (snd (Ping now env c)) = written c @ [hubMessage 6] \<and>
    written (snd (SendInvocation now env invId target args c)) =
      written c @ [invocationMessage 1 invId target args []] \<and>
    written (snd (SendStreamInvocation now env invId target args streamIds c)) =
      written c @ [invocationMessage 4 invId target args streamIds] \<and>
    written (snd (StreamItem now env invId item c)) =
      written c @ [streamItemMessage 2 invId item] \<and>
    written (snd (Completion now env invId result err c)) =
      written c @ [completionMessage 3 invId result err] \<and>
    written (snd (Close errorText allowReconnect w c)) =
      written c @ [closeMessage 7 errorText allowReconnect]"
  using assms by (simp add: sends IsConnected_def writeMessage_written Close_def)

theorem sends_build_their_message_witness:
  "IsConnected (Start (newHubConnection None 32 :: nat hub)) \<and>
   written (snd (Ping 5 \<lparr>arrives = None, wres = Returns None, write_finished = True,
                          pick = CaseChan\<rparr> (Start (newHubConnection None 32 :: nat hub)))) =
     [hubMessage 6] \<and>
   written (snd (SendInvocation 5 \<lparr>arrives = None, wres = Returns None, write_finished = True,
                          pick = CaseChan\<rparr> ''1'' ''m'' [3, 4]
                   (Start (newHubConnection None 32 :: nat hub)))) =
     [invocationMessage 1 ''1'' ''m'' [3, 4] []] \<and>
   Type (invocationMessage 1 ''1'' ''m'' [3, 4 :: nat] []) = 1 \<and>
   written (snd (Close ''bye'' False (Returns None)
                   (Start (newHubConnection None 32 :: nat hub)))) =
     [closeMessage 7 ''bye'' False]"
  using sends_build_their_message [of "Start (newHubConnection None 32 :: nat hub)" 5
      "\<lparr>arrives = None, wres = Returns None, write_finished = True, pick = CaseChan\<rparr>"
      "''1''" "''m''" "[3, 4]" "[]" 0 0 "''e''" "''bye''" False "Returns None"]
  by (simp add: IsConnected_def Start_def newHubConnection_def)

text \<open>
  C8. \<^verbatim>\<open>Close\<close> bypasses the guarded path: in every state of the connection, connected
  or not, context ended or not, it hands its message to \<^verbatim>\<open>WriteMessage\<close> and returns
  what that call returns; it leaves \<open>lastWriteStamp\<close> as it was and, also when the write
  fails, it does not abort: both contexts and \<open>connected\<close> stay as they were.
\<close>

theorem Close_bypasses_guarded_path:
  "fst (Close errorText allowReconnect w c) = w \<and>
   written (snd (Close errorText allowReconnect w c)) =
     written c @ [closeMessage 7 errorText allowReconnect] \<and>
   LastWriteStamp (snd (Close errorText allowReconnect w c)) = LastWriteStamp c \<and>
   ctxErr (snd (Close errorText allowReconnect w c)) = ctxErr c \<and>
   connCtxErr (snd (Close errorText allowReconnect w c)) = connCtxErr c \<and>
   IsConnected (snd (Close errorText allowReconnect w c)) = IsConnected c"
  by (simp add: Close_def LastWriteStamp_def IsConnected_def)

text \<open>
  C10. Every guarded send sets \<open>lastWriteStamp\<close> to the current time before it looks at
  \<open>connected\<close>: after the call the stamp is the time of the call whatever the state
  and the environment were, also for a call on a connection that is not connected,
  which writes nothing.
\<close>

theorem send_stamps_before_check:
  "LastWriteStamp (snd (SendInvocation now env invId target args c)) = now \<and>
   LastWriteStamp (snd (SendStreamInvocation now env invId target args streamIds c)) = now \<and>
   LastWriteStamp (snd (StreamItem now env invId item c)) = now \<and>
   LastWriteStamp (snd (Completion now env invId result err c)) = now \<and>
   LastWriteStamp (snd (Ping now env c)) = now \<and>
   LastWriteStamp (snd (Ping now env (c\<lparr>connected := False\<rparr>))) = now \<and>
   written (snd (Ping now env (c\<lparr>connected := False\<rparr>))) = written c"
  by (simp add: sends LastWriteStamp_def writeMessage_stamp writeMessage_written)

subsection \<open>Sequences of operations\<close>

text \<open>The equation of the loop is unfolded by hand, one round at a time.\<close>

declare recv_loop.simps [simp del]

lemma recv_loop_keeps:
  "connected (snd (recv_loop rm sel buf data n evs c)) = connected c \<and>
   watching (snd (recv_loop rm sel buf data n evs c)) = watching c \<and>
   abortChans (snd (recv_loop rm sel buf data n evs c)) = abortChans c \<and>
   delivered (snd (recv_loop rm sel buf data n evs c)) = delivered c \<and>
   written (snd (recv_loop rm sel buf data n evs c)) = written c \<and>
   lastWriteStamp (snd (recv_loop rm sel buf data n evs c)) = lastWriteStamp c"
proof (induction evs arbitrary: buf data n)
  case Nil
  show ?case by (simp add: recv_loop.simps split: prod.splits)
next
  case (Cons ev evs)
  show ?case
  proof (cases ev)
    case (ReadOk chunk)
    with Cons show ?thesis
      by (subst (1 2 3 4 5 6) recv_loop.simps) (simp add: Let_def split: prod.splits)
  next
    case (ReadErr k e)
    then show ?thesis
      by (simp add: recv_loop.simps Let_def select2_def split: prod.splits select_case.splits)
  next
    case (CtxEnds x)
    then show ?thesis by (simp add: recv_loop.simps Let_def split: prod.splits)
  qed
qed

lemma Receive_keeps:
  "connected (snd (Receive rm sel evs c)) = connected c"
  "watching (snd (Receive rm sel evs c)) = watching c"
  "abortChans (snd (Receive rm sel evs c)) = abortChans c"
  "delivered (snd (Receive rm sel evs c)) = delivered c"
  by (simp_all add: Receive_def recv_loop_keeps)

lemma exec_keeps:
  "x \<noteq> OpWatcher \<Longrightarrow> watching (exec x c) = watching c"
  "x \<noteq> OpWatcher \<Longrightarrow> abortChans (exec x c) = abortChans c"
  "x \<noteq> OpWatcher \<Longrightarrow> delivered (exec x c) = delivered c"
  "x \<noteq> OpWatcher \<Longrightarrow> x \<noteq> OpStart \<Longrightarrow> connected (exec x c) = connected c"
  by (cases x; simp add: Start_def Close_def sends writeMessage_keeps Receive_keeps)+

lemma watcher_idle: "\<not> watching c \<Longrightarrow> watcher c = c"
  by (simp add: watcher_def)

lemma exec_fall:
  assumes "connected c" and "\<not> connected (exec x c)"
  shows "x = OpWatcher \<and> watching c \<and> ctxErr c \<noteq> None \<and> \<not> watching (exec x c)"
proof (cases "x = OpWatcher")
  case True
  with assms show ?thesis by (auto simp: watcher_def split: if_splits)
next
  case False
  with assms show ?thesis by (cases "x = OpStart") (simp_all add: exec_keeps Start_def)
qed

lemma exec_watching: "watching (exec x c) \<Longrightarrow> watching c"
  by (cases "x = OpWatcher") (auto simp: exec_keeps watcher_def split: if_splits)

lemma states_hd: "states xs c = c # tl (states xs c)"
  by (cases xs) simp_all

lemma falls_bound: "falls (map connected (states xs c)) \<le> (if watching c then 1 else 0)"
proof (induction xs arbitrary: c)
  case Nil
  show ?case by simp
next
  case (Cons x xs)
  obtain r where r: "states xs (exec x c) = exec x c # r"
    using states_hd by blast
  have step: "falls (map connected (states (x # xs) c)) =
      (if connected c \<and> \<not> connected (exec x c) then 1 else 0) +
      falls (map connected (states xs (exec x c)))"
    by (simp add: r)
  show ?case
  proof (cases "connected c \<and> \<not> connected (exec x c)")
    case True
    then have "connected c" and "\<not> connected (exec x c)" by simp_all
    from exec_fall [OF this] have "watching c" and "\<not> watching (exec x c)" by blast+
    with Cons.IH [of "exec x c"] step True show ?thesis by simp
  next
    case False
    have "watching (exec x c) \<Longrightarrow> watching c" by (rule exec_watching)
    with Cons.IH [of "exec x c"] step False show ?thesis by (auto split: if_splits)
  qed
qed

lemma exec_rise: "connected (exec x c) \<Longrightarrow> connected c \<or> x = OpStart"
  by (cases "x = OpWatcher") (auto simp: exec_keeps watcher_def split: if_splits)

lemma no_Start_no_connection:
  "OpStart \<notin> set xs \<Longrightarrow> \<not> connected c \<Longrightarrow> s \<in> set (states xs c) \<Longrightarrow> \<not> connected s"
proof (induction xs arbitrary: c)
  case Nil
  then show ?case by simp
next
  case (Cons x xs)
  from Cons.prems have "\<not> connected (exec x c)" using exec_rise [of x c] by auto
  with Cons show ?case by auto
qed

lemma drained_stays:
  "\<not> watching c \<Longrightarrow> s \<in> set (states xs c) \<Longrightarrow>
     delivered s = delivered c \<and> abortChans s = abortChans c \<and> \<not> watching s"
proof (induction xs arbitrary: c)
  case Nil
  then show ?case by simp
next
  case (Cons x xs)
  have k: "delivered (exec x c) = delivered c \<and> abortChans (exec x c) = abortChans c \<and>
      \<not> watching (exec x c)"
    using Cons.prems(1) by (cases "x = OpWatcher") (simp_all add: exec_keeps watcher_idle)
  from Cons.prems(2) have "s = c \<or> s \<in> set (states xs (exec x c))" by simp
  then show ?case
  proof
    assume "s = c" with Cons.prems(1) show ?thesis by simp
  next
    assume "s \<in> set (states xs (exec x c))"
    with Cons.IH [of "exec x c"] k show ?thesis by simp
  qed
qed

text \<open>
  C3 (as amended). On a new connection \<open>connected\<close> is false, and it stays false through
  any sequence of operations with no \<^verbatim>\<open>Start\<close> in it. Through any sequence of
  operations it goes from true to false at most once; a step in which it does so is a
  run of the watcher goroutine, with the context ended, and the watcher does not run
  again. \<^verbatim>\<open>Start\<close> sets \<open>connected\<close> to true in every state, also after the connection
  has been terminated.
\<close>

theorem connected_falls_at_most_once:
  "\<not> IsConnected (newHubConnection parentErr maxSize) \<and>
   (OpStart \<notin> set xs \<longrightarrow>
      (\<forall>s \<in> set (states xs (newHubConnection parentErr maxSize)). \<not> IsConnected s)) \<and>
   falls (map IsConnected (states ys (newHubConnection parentErr maxSize))) \<le> 1 \<and>
   (IsConnected c \<and> \<not> IsConnected (exec x c) \<longrightarrow>
      x = OpWatcher \<and> ctxErr c \<noteq> None \<and> watching c \<and> \<not> watching (exec x c)) \<and>
   IsConnected (exec OpStart d)"
proof -
  have a: "\<not> IsConnected (newHubConnection parentErr maxSize)"
    by (simp add: IsConnected_def newHubConnection_def)
  have b: "OpStart \<notin> set xs \<longrightarrow>
      (\<forall>s \<in> set (states xs (newHubConnection parentErr maxSize)). \<not> IsConnected s)"
    using no_Start_no_connection [of xs "newHubConnection parentErr maxSize"]
    by (auto simp: IsConnected_def newHubConnection_def)
  have m: "map IsConnected (states ys (newHubConnection parentErr maxSize)) =
      map connected (states ys (newHubConnection parentErr maxSize))"
    by (simp add: IsConnected_def)
  have "falls (map connected (states ys (newHubConnection parentErr maxSize))) \<le> 1"
    using falls_bound [of ys "newHubConnection parentErr maxSize"]
    by (simp split: if_splits)
  then have c: "falls (map IsConnected (states ys (newHubConnection parentErr maxSize))) \<le> 1"
    by (simp only: m)
  have d: "IsConnected c \<and> \<not> IsConnected (exec x c) \<longrightarrow>
      x = OpWatcher \<and> ctxErr c \<noteq> None \<and> watching c \<and> \<not> watching (exec x c)"
    using exec_fall [of c x] unfolding IsConnected_def by blast
  have e: "IsConnected (exec OpStart d)"
    by (simp add: IsConnected_def Start_def)
  from a b c d e show ?thesis by blast
qed

text \<open>
  C3 as stated fails: after \<^verbatim>\<open>Start\<close>, \<^verbatim>\<open>Abort\<close> and the watcher's run the connection
  is terminated and \<open>connected\<close> is false; a second \<^verbatim>\<open>Start\<close> makes \<^verbatim>\<open>IsConnected\<close>
  return true again.
\<close>

theorem restart_counterexample:
  "map IsConnected (states [OpStart, OpAbort, OpWatcher, OpStart :: (nat, nat) op]
       (newHubConnection None 32 :: nat hub)) = [False, True, True, False, True] \<and>
   ctxErr (watcher (Abort (Start (newHubConnection None 32 :: nat hub)))) = Some Canceled"
  by (simp add: IsConnected_def Start_def Abort_def cancelFunc_def watcher_def newHubConnection_def)


theorem connected_falls_at_most_once_witness:
  "falls (map IsConnected (states [OpStart, OpAbort, OpWatcher, OpStart, OpWatcher :: (nat, nat) op]
       (newHubConnection None 32 :: nat hub))) \<le> 1 \<and>
   map IsConnected (states [OpAbort, OpWatcher, OpPing 5 \<lparr>arrives = None, wres = Returns None,
       write_finished = True, pick = CaseChan\<rparr> :: (nat, nat) op]
       (newHubConnection None 32 :: nat hub)) = [False, False, False, False] \<and>
   IsConnected (Start (newHubConnection None 32 :: nat hub)) \<and>
   \<not> IsConnected (exec (OpWatcher :: (nat, nat) op) (Abort (Start (newHubConnection None 32 :: nat hub)))) \<and>
   IsConnected (exec (OpStart :: (nat, nat) op) (watcher (Abort (Start (newHubConnection None 32 :: nat hub)))))"
  using connected_falls_at_most_once [of None 32
      "[OpAbort, OpWatcher, OpPing 5 \<lparr>arrives = None, wres = Returns None,
         write_finished = True, pick = CaseChan\<rparr> :: (nat, nat) op]"
      "[OpStart, OpAbort, OpWatcher, OpStart, OpWatcher :: (nat, nat) op]"
      "Abort (Start (newHubConnection None 32 :: nat hub))" "OpWatcher :: (nat, nat) op"
      "watcher (Abort (Start (newHubConnection None 32 :: nat hub)))"]
  by (simp add: IsConnected_def Start_def Abort_def cancelFunc_def watcher_def
      newHubConnection_def Ping_def writeMessage_def eris_Wrap_def finish_def)

subsection \<open>The abort broadcast\<close>

text \<open>
  C9 (as amended). When the watcher goroutine observes the end of the context:
  if the connection is connected, a send is started on every channel of \<open>abortChans\<close>,
  the list is cleared and \<open>connected\<close> becomes false, and when the transport's own
  context has ended with \<open>e\<close> every such send carries \<open>e\<close> wrapped as
  \<^verbatim>\<open>connection canceled\<close>; if the connection is not connected, nothing is sent and the
  list stays as it is. Whatever operations follow, nothing more is sent and the list
  does not change: the draining happens at most once.
\<close>

theorem watcher_drains_when_connected:
  assumes "watching c" and "ctxErr c \<noteq> None"
  shows "(IsConnected c \<longrightarrow>
            map fst (delivered (watcher c)) = map fst (delivered c) @ abortChans c \<and>
            abortChans (watcher c) = [] \<and> \<not> IsConnected (watcher c)) \<and>
         (IsConnected c \<and> connCtxErr c = Some e \<longrightarrow>
            delivered (watcher c) = delivered c @
              map (\<lambda>ch. (ch, Some (Wrapped ''connection canceled'' e))) (abortChans c)) \<and>
         (\<not> IsConnected c \<longrightarrow>
            delivered (watcher c) = delivered c \<and> abortChans (watcher c) = abortChans c) \<and>
         (\<forall>s \<in> set (states xs (watcher c)).
            delivered s = delivered (watcher c) \<and> abortChans s = abortChans (watcher c))"
proof -
  have w: "\<not> watching (watcher c)"
    using assms by (simp add: watcher_def)
  have "\<forall>s \<in> set (states xs (watcher c)).
      delivered s = delivered (watcher c) \<and> abortChans s = abortChans (watcher c)"
    using drained_stays [OF w] by blast
  moreover have "IsConnected c \<longrightarrow>
      map fst (delivered (watcher c)) = map fst (delivered c) @ abortChans c \<and>
      abortChans (watcher c) = [] \<and> \<not> IsConnected (watcher c)"
    using assms by (simp add: watcher_def IsConnected_def comp_def)
  moreover have "IsConnected c \<and> connCtxErr c = Some e \<longrightarrow>
      delivered (watcher c) = delivered c @
        map (\<lambda>ch. (ch, Some (Wrapped ''connection canceled'' e))) (abortChans c)"
    using assms by (simp add: watcher_def IsConnected_def eris_Wrap_def)
  moreover have "\<not> IsConnected c \<longrightarrow>
      delivered (watcher c) = delivered c \<and> abortChans (watcher c) = abortChans c"
    using assms by (simp add: watcher_def IsConnected_def)
  ultimately show ?thesis by blast
qed

theorem watcher_drains_when_connected_witness:
  "watching (upstreamDone DeadlineExceeded (Start ((newHubConnection None 32 :: nat hub)\<lparr>abortChans := [7, 8]\<rparr>))) \<and>
   ctxErr (upstreamDone DeadlineExceeded (Start ((newHubConnection None 32 :: nat hub)\<lparr>abortChans := [7, 8]\<rparr>))) = Some DeadlineExceeded \<and>
   IsConnected (upstreamDone DeadlineExceeded (Start ((newHubConnection None 32 :: nat hub)\<lparr>abortChans := [7, 8]\<rparr>))) \<and>
   delivered (watcher (upstreamDone DeadlineExceeded (Start ((newHubConnection None 32 :: nat hub)\<lparr>abortChans := [7, 8]\<rparr>)))) =
     [(7, Some (Wrapped ''connection canceled'' DeadlineExceeded)),
      (8, Some (Wrapped ''connection canceled'' DeadlineExceeded))] \<and>
   abortChans (watcher (upstreamDone DeadlineExceeded (Start ((newHubConnection None 32 :: nat hub)\<lparr>abortChans := [7, 8]\<rparr>)))) = [] \<and>
   map delivered (states [OpStart, OpWatcher :: (nat, nat) op]
     (watcher (upstreamDone DeadlineExceeded (Start ((newHubConnection None 32 :: nat hub)\<lparr>abortChans := [7, 8]\<rparr>))))) =
     replicate 3 [(7, Some (Wrapped ''connection canceled'' DeadlineExceeded)),
      (8, Some (Wrapped ''connection canceled'' DeadlineExceeded))]"
  using watcher_drains_when_connected [of
      "upstreamDone DeadlineExceeded (Start ((newHubConnection None 32 :: nat hub)\<lparr>abortChans := [7, 8]\<rparr>))"
      DeadlineExceeded "[OpStart, OpWatcher :: (nat, nat) op]"]
  by (simp add: IsConnected_def Start_def upstreamDone_def watcher_def newHubConnection_def
      eris_Wrap_def Let_def numeral_3_eq_3)

text \<open>
  C9 as stated fails: on a connection that was never started, with one registered
  channel, the end of the transport's context makes the watcher run and finish, and
  nothing is sent to the channel and the list is not cleared.
\<close>

theorem never_started_not_drained:
  "watching (upstreamDone Canceled ((newHubConnection None 32 :: nat hub)\<lparr>abortChans := [7]\<rparr>)) \<and>
   ctxErr (upstreamDone Canceled ((newHubConnection None 32 :: nat hub)\<lparr>abortChans := [7]\<rparr>)) = Some Canceled \<and>
   delivered (watcher (upstreamDone Canceled ((newHubConnection None 32 :: nat hub)\<lparr>abortChans := [7]\<rparr>))) = [] \<and>
   abortChans (watcher (upstreamDone Canceled ((newHubConnection None 32 :: nat hub)\<lparr>abortChans := [7]\<rparr>))) = [7] \<and>
   \<not> watching (watcher (upstreamDone Canceled ((newHubConnection None 32 :: nat hub)\<lparr>abortChans := [7]\<rparr>)))"
  by (simp add: upstreamDone_def watcher_def newHubConnection_def Let_def)

text \<open>
  After \<^verbatim>\<open>Abort\<close> alone the transport's context is live, \<^verbatim>\<open>c.connection.Context().Err()\<close>
  is \<^verbatim>\<open>nil\<close>, and what line 51 sends to a waiter is \<^verbatim>\<open>nil\<close>.
\<close>

lemma watcher_after_Abort_sends_nil:
  "delivered (watcher (Abort (Start ((newHubConnection None 32 :: nat hub)\<lparr>abortChans := [7]\<rparr>)))) = [(7, None)]"
  by (simp add: Abort_def cancelFunc_def Start_def watcher_def newHubConnection_def eris_Wrap_def)

subsection \<open>Receive\<close>

text \<open>
  A call that is blocked on a transport read has left the connection as it was. If the
  context then ends, the call returns the wrapped cause; if the read then fails, the
  loop aborts and the outer \<^verbatim>\<open>select\<close> chooses between the read's result and the
  cancellation.
\<close>

lemma recv_loop_blocked:
  "recv_loop rm sel buf data n evs c = (Blocks, c') \<Longrightarrow>
     c' = c \<and>
     recv_loop rm sel buf data n (evs @ CtxEnds ev # rest) c =
       (Returns (NilValue, eris_Wrap (ctxErr (cancel_by ev c)) ''hubConnection canceled''),
        cancel_by ev c) \<and>
     recv_loop rm sel buf data n (evs @ ReadErr k e # rest) c =
       (Returns (if sel = CaseChan then (IntValue k, Some e)
                 else (NilValue, eris_Wrap (ctxErr (Abort c)) ''hubConnection canceled'')),
        Abort c)"
proof (induction evs arbitrary: buf data n)
  case Nil
  then show ?case
    by (simp add: recv_loop.simps Let_def select2_def
        split: prod.splits if_splits select_case.splits)
next
  case (Cons x evs)
  show ?case
  proof (cases x)
    case (ReadOk chunk)
    obtain message complete parseErr buf1
      where rm: "rm buf = ((message, complete, parseErr), buf1)"
      by (cases "rm buf") auto
    from Cons.prems ReadOk rm have inc: "\<not> complete"
      by (subst (asm) recv_loop.simps) (simp add: Let_def split: if_splits)
    from Cons.prems ReadOk rm inc have b: "recv_loop rm sel
        ((buf1 @ take n data) @ take (min (length chunk) (length data))
           (take (min (length chunk) (length data)) chunk @
            drop (min (length chunk) (length data)) data))
        (take (min (length chunk) (length data)) chunk @
         drop (min (length chunk) (length data)) data)
        (min (length chunk) (length data)) evs c = (Blocks, c')"
      by (subst (asm) recv_loop.simps) (simp add: Let_def)
    have step: "recv_loop rm sel buf data n ((x # evs) @ tl') c =
        recv_loop rm sel
        ((buf1 @ take n data) @ take (min (length chunk) (length data))
           (take (min (length chunk) (length data)) chunk @
            drop (min (length chunk) (length data)) data))
        (take (min (length chunk) (length data)) chunk @
         drop (min (length chunk) (length data)) data)
        (min (length chunk) (length data)) (evs @ tl') c" for tl'
      using ReadOk rm inc by (subst recv_loop.simps) (simp add: Let_def)
    from Cons.IH [OF b] show ?thesis
      by (simp only: step)
  next
    case (ReadErr k' e')
    with Cons.prems show ?thesis
      by (subst (asm) recv_loop.simps)
        (simp add: Let_def select2_def split: prod.splits if_splits select_case.splits)
  next
    case (CtxEnds ev')
    with Cons.prems show ?thesis
      by (subst (asm) recv_loop.simps) (simp add: Let_def split: prod.splits if_splits)
  qed
qed

lemma Receive_blocked_live: "Receive rm sel evs c = (Blocks, c') \<Longrightarrow> ctxErr c = None \<and> c' = c"
  using recv_loop_blocked [of rm sel "[]" _ 0 evs c c']
  by (auto simp: Receive_def split: if_splits)

text \<open>
  C6. \<^verbatim>\<open>Receive\<close> called after the context has ended returns at once, without a
  transport read, \<^verbatim>\<open>nil\<close> and the wrapped cause. When a call is blocked on a transport
  read (the reads so far left the message incomplete and the next read has not
  returned) and the context ends, \<^verbatim>\<open>Receive\<close> returns \<^verbatim>\<open>nil\<close> and the wrapped cause,
  whatever the transport does afterwards.
\<close>

theorem Receive_cancelled:
  "(ctxErr c = Some e \<longrightarrow>
      Receive rm sel evs c =
        (Returns (NilValue, Some (Wrapped ''hubConnection canceled'' e)), c)) \<and>
   (Receive rm sel evs c = (Blocks, c') \<longrightarrow>
      (\<exists>cause. ctxErr (cancel_by ev c') = Some cause \<and>
         Receive rm sel (evs @ CtxEnds ev # rest) c =
           (Returns (NilValue, Some (Wrapped ''hubConnection canceled'' cause)),
            cancel_by ev c')))"
proof (intro conjI impI)
  assume "ctxErr c = Some e"
  then show "Receive rm sel evs c =
      (Returns (NilValue, Some (Wrapped ''hubConnection canceled'' e)), c)"
    by (simp add: Receive_def eris_Wrap_def)
next
  assume b: "Receive rm sel evs c = (Blocks, c')"
  then have live: "ctxErr c = None" and same: "c' = c"
    using Receive_blocked_live by blast+
  from b live have "recv_loop rm sel [] (replicate (maximumReceiveMessageSize c) 0) 0 evs c =
      (Blocks, c')"
    by (simp add: Receive_def)
  from recv_loop_blocked [OF this, of ev rest] live same
  have r: "Receive rm sel (evs @ CtxEnds ev # rest) c =
      (Returns (NilValue, eris_Wrap (ctxErr (cancel_by ev c')) ''hubConnection canceled''),
       cancel_by ev c')"
    by (simp add: Receive_def)
  obtain cause where "ctxErr (cancel_by ev c') = Some cause"
    using cancel_by_ends [of ev c'] by blast
  with r show "\<exists>cause. ctxErr (cancel_by ev c') = Some cause \<and>
      Receive rm sel (evs @ CtxEnds ev # rest) c =
        (Returns (NilValue, Some (Wrapped ''hubConnection canceled'' cause)), cancel_by ev c')"
    by (simp add: eris_Wrap_def)
qed

text \<open>
  What \<^verbatim>\<open>Receive\<close> returns after a failed read depends on the outer \<^verbatim>\<open>select\<close>: line
  144 ends the context before line 145 sends the read's result, so the cancellation
  case is ready no later than the result.
\<close>

lemma Receive_read_failure:
  assumes "Receive rm sel evs c = (Blocks, c')"
  shows "Receive rm sel (evs @ ReadErr k e # rest) c =
     (Returns (if sel = CaseChan then (IntValue k, Some e)
               else (NilValue, Some (Wrapped ''hubConnection canceled'' Canceled))),
      Abort c)"
proof -
  from assms have live: "ctxErr c = None" using Receive_blocked_live by blast
  with assms have "recv_loop rm sel [] (replicate (maximumReceiveMessageSize c) 0) 0 evs c =
      (Blocks, c')"
    by (simp add: Receive_def)
  from recv_loop_blocked [OF this, of ByAbort rest k e] live show ?thesis
    by (simp add: Receive_def eris_Wrap_def)
qed

text \<open>
  C5 (as amended). A failed transport read inside \<^verbatim>\<open>Receive\<close> aborts the connection.
  A failed \<^verbatim>\<open>WriteMessage\<close> inside \<^verbatim>\<open>writeMessage\<close> whose result the \<^verbatim>\<open>select\<close> takes (the
  context is live and no cancellation arrives, or the write has finished and its case
  is the one chosen) is returned to the caller, with the connection aborted. When
  instead the context ends while the write is in flight, what is returned is the wrapped
  cancellation cause, whatever the write returns. \<^verbatim>\<open>Close\<close> returns the result of its
  write and never aborts.
\<close>

theorem io_failure_aborts:
  "(Receive rm sel evs c = (Blocks, c') \<longrightarrow>
      ctxErr (snd (Receive rm sel (evs @ ReadErr k e # rest) c)) = Some Canceled) \<and>
   (IsConnected d \<and> wres env = Returns (Some e') \<and>
    (arrives env = None \<and> ctxErr d = None \<or> write_finished env \<and> pick env = CaseChan) \<longrightarrow>
      fst (writeMessage now env m d) = Returns (Some e') \<and>
      ctxErr (snd (writeMessage now env m d)) \<noteq> None) \<and>
   (IsConnected d \<and> wres env = Returns r \<and> arrives env = Some ev \<and> \<not> write_finished env \<longrightarrow>
      fst (writeMessage now env m d) =
        Returns (eris_Wrap (ctxErr (cancel_by ev d)) ''hubConnection canceled'')) \<and>
   fst (Close errorText allowReconnect w d) = w \<and>
   ctxErr (snd (Close errorText allowReconnect w d)) = ctxErr d"
proof (intro conjI impI)
  assume b: "Receive rm sel evs c = (Blocks, c')"
  then have "ctxErr c = None" using Receive_blocked_live by blast
  with Receive_read_failure [OF b, of k e rest]
  show "ctxErr (snd (Receive rm sel (evs @ ReadErr k e # rest) c)) = Some Canceled"
    by simp
next
  assume a: "IsConnected d \<and> wres env = Returns (Some e') \<and>
    (arrives env = None \<and> ctxErr d = None \<or> write_finished env \<and> pick env = CaseChan)"
  then show "fst (writeMessage now env m d) = Returns (Some e')"
    by (auto simp: writeMessage_def IsConnected_def Let_def select2_def
        split: option.splits)
  from a show "ctxErr (snd (writeMessage now env m d)) \<noteq> None"
    by (auto simp: writeMessage_def IsConnected_def Let_def select2_def
        split: option.splits)
next
  assume a: "IsConnected d \<and> wres env = Returns r \<and> arrives env = Some ev \<and>
    \<not> write_finished env"
  have "ctxErr (cancel_by ev (d\<lparr>lastWriteStamp := now, written := written d @ [m]\<rparr>)) =
      ctxErr (cancel_by ev d)"
    by (cases ev)
      (simp_all add: cancel_by_def Abort_def cancelFunc_def upstreamDone_def Let_def
        split: option.splits)
  with a show "fst (writeMessage now env m d) =
      Returns (eris_Wrap (ctxErr (cancel_by ev d)) ''hubConnection canceled'')"
    by (simp add: writeMessage_def IsConnected_def Let_def select2_def)
qed (simp_all add: Close_def)

lemmas eval_defs = Receive_def recv_loop.simps codec_needs_def codec_keeps_def Start_def
  Abort_def cancelFunc_def cancel_by_def newHubConnection_def eris_Wrap_def select2_def Let_def

theorem Receive_cancelled_witness:
  "ctxErr (Abort (Start (newHubConnection None 32 :: nat hub))) = Some Canceled \<and>
   Receive (codec_needs 50) CaseChan [ReadOk (replicate 32 1)]
       (Abort (Start (newHubConnection None 32 :: nat hub))) =
     (Returns (NilValue, Some (Wrapped ''hubConnection canceled'' Canceled)),
      Abort (Start (newHubConnection None 32))) \<and>
   Receive (codec_needs 50) CaseChan [ReadOk (replicate 32 1)]
       (Start (newHubConnection None 32 :: nat hub)) =
     (Blocks, Start (newHubConnection None 32)) \<and>
   Receive (codec_needs 50) CaseChan
       ([ReadOk (replicate 32 1)] @ CtxEnds ByAbort # [ReadOk (replicate 18 2)])
       (Start (newHubConnection None 32 :: nat hub)) =
     (Returns (NilValue, Some (Wrapped ''hubConnection canceled'' Canceled)),
      cancel_by ByAbort (Start (newHubConnection None 32)))"
  using Receive_cancelled [of "Abort (Start (newHubConnection None 32 :: nat hub))" Canceled
      "codec_needs 50" CaseChan "[ReadOk (replicate 32 1)]"
      "Abort (Start (newHubConnection None 32 :: nat hub))" ByAbort "[]"]
    Receive_cancelled [of "Start (newHubConnection None 32 :: nat hub)" Canceled
      "codec_needs 50" CaseChan "[ReadOk (replicate 32 1)]"
      "Start (newHubConnection None 32 :: nat hub)" ByAbort "[ReadOk (replicate 18 2)]"]
  by (simp add: eval_defs)

theorem io_failure_aborts_witness:
  "Receive (codec_needs 50) CaseChan [ReadOk (replicate 32 1)]
       (Start (newHubConnection None 32 :: nat hub)) =
     (Blocks, Start (newHubConnection None 32)) \<and>
   ctxErr (snd (Receive (codec_needs 50) CaseChan
       ([ReadOk (replicate 32 1)] @ ReadErr 0 (Failure ''connection reset'') # [])
       (Start (newHubConnection None 32 :: nat hub)))) = Some Canceled \<and>
   IsConnected (Start (newHubConnection None 32 :: nat hub)) \<and>
   writeMessage 5 \<lparr>arrives = None, wres = Returns (Some (Failure ''broken pipe'')),
        write_finished = True, pick = CaseChan\<rparr> (hubMessage 6)
        (Start (newHubConnection None 32 :: nat hub)) =
     (Returns (Some (Failure ''broken pipe'')),
      (Start (newHubConnection None 32))\<lparr>lastWriteStamp := 5, ctxErr := Some Canceled,
         written := [hubMessage 6], logged := [(hubMessage 6, Failure ''broken pipe'')]\<rparr>) \<and>
   fst (writeMessage 5 \<lparr>arrives = Some (ByUpstream DeadlineExceeded),
        wres = Returns (Some (Failure ''broken pipe'')), write_finished = False,
        pick = CaseChan\<rparr> (hubMessage 6) (Start (newHubConnection None 32 :: nat hub))) =
     Returns (Some (Wrapped ''hubConnection canceled'' DeadlineExceeded)) \<and>
   ctxErr (snd (Close ''bye'' False (Returns (Some (Failure ''broken pipe'')))
        (Start (newHubConnection None 32 :: nat hub)))) = None"
  using io_failure_aborts [of "codec_needs 50" CaseChan "[ReadOk (replicate 32 1)]"
      "Start (newHubConnection None 32 :: nat hub)" "Start (newHubConnection None 32 :: nat hub)"
      0 "Failure ''connection reset''" "[]"
      "Start (newHubConnection None 32 :: nat hub)"
      "\<lparr>arrives = None, wres = Returns (Some (Failure ''broken pipe'')),
        write_finished = True, pick = CaseChan\<rparr>" "Failure ''broken pipe''" 5 "hubMessage 6"
      "Some (Failure ''broken pipe'')" ByAbort
      "''bye''" False "Returns (Some (Failure ''broken pipe''))"]
    io_failure_aborts [of "codec_needs 50" CaseChan "[ReadOk (replicate 32 1)]"
      "Start (newHubConnection None 32 :: nat hub)" "Start (newHubConnection None 32 :: nat hub)"
      0 "Failure ''connection reset''" "[]"
      "Start (newHubConnection None 32 :: nat hub)"
      "\<lparr>arrives = Some (ByUpstream DeadlineExceeded),
        wres = Returns (Some (Failure ''broken pipe'')), write_finished = False,
        pick = CaseChan\<rparr>" "Failure ''broken pipe''" 5 "hubMessage 6"
      "Some (Failure ''broken pipe'')" "ByUpstream DeadlineExceeded"
      "''bye''" False "Returns (Some (Failure ''broken pipe''))"]
  by (simp add: eval_defs IsConnected_def writeMessage_def finish_def Close_def
      upstreamDone_def)

text \<open>
  C5 as stated fails: a write that fails while a cancellation arrives is waited for, and
  the guarded send returns the wrapped cancellation cause, not the write's error.
\<close>

theorem failed_write_lost_to_cancellation:
  "IsConnected (Start (newHubConnection None 32 :: nat hub)) \<and>
   fst (SendInvocation 5 \<lparr>arrives = Some ByAbort, wres = Returns (Some (Failure ''broken pipe'')),
          write_finished = False, pick = CaseChan\<rparr> ''1'' ''m'' []
          (Start (newHubConnection None 32 :: nat hub))) =
     Returns (Some (Wrapped ''hubConnection canceled'' Canceled)) \<and>
   Wrapped ''hubConnection canceled'' Canceled \<noteq> Failure ''broken pipe''"
  by (simp add: eval_defs IsConnected_def SendInvocation_def writeMessage_def finish_def)

lemma Receive_read_failure_race:
  "fst (Receive (codec_needs 50) CaseChan [ReadErr 0 (Failure ''connection reset'')]
       (Start (newHubConnection None 32 :: nat hub))) =
     Returns (IntValue 0, Some (Failure ''connection reset'')) \<and>
   fst (Receive (codec_needs 50) CaseDone [ReadErr 0 (Failure ''connection reset'')]
       (Start (newHubConnection None 32 :: nat hub))) =
     Returns (NilValue, Some (Wrapped ''hubConnection canceled'' Canceled))"
  by (simp add: eval_defs)

text \<open>
  C2 (the code departs from the claim). Claim: \<^verbatim>\<open>Receive\<close> returns the complete message
  however its bytes are spread over bounded reads. With reads of at most 32 bytes and a
  codec that empties the buffer while the message is incomplete, a message of 50 bytes
  read as 32 and 18 bytes is returned after two reads. A message of 70 bytes read as
  32, 32 and 6 bytes is not: line 130 puts back only the bytes of the last read, the
  first 32 bytes are gone, and after the three reads \<^verbatim>\<open>Receive\<close> still waits for
  more. With a codec that leaves an incomplete buffer alone, line 130 doubles the first
  read and the 50 bytes returned are not the message.
\<close>

theorem Receive_loses_first_chunk:
  "fst (Receive (codec_needs 50) CaseChan [ReadOk (replicate 32 1)]
       (Start (newHubConnection None 32 :: nat hub))) = Blocks \<and>
   fst (Receive (codec_needs 50) CaseChan [ReadOk (replicate 32 1), ReadOk (replicate 18 2)]
       (Start (newHubConnection None 32 :: nat hub))) =
     Returns (MessageValue (replicate 32 1 @ replicate 18 2), None) \<and>
   fst (Receive (codec_needs 70) CaseChan
       [ReadOk (replicate 32 1), ReadOk (replicate 32 2), ReadOk (replicate 6 3)]
       (Start (newHubConnection None 32 :: nat hub))) = Blocks \<and>
   fst (Receive (codec_keeps 50) CaseChan [ReadOk (replicate 32 1), ReadOk (replicate 18 2)]
       (Start (newHubConnection None 32 :: nat hub))) =
     Returns (MessageValue (replicate 32 1 @ replicate 18 1), None)"
  by (simp add: eval_defs)


text \<open>
  With a codec that empties the buffer while the message is incomplete, the buffer never
  holds more than the last two reads: a message longer than twice the size of \<^verbatim>\<open>data\<close>
  is never returned, whatever the successful reads are.
\<close>

lemma long_message_never_returned:
  assumes "2 * length data < k" and "n \<le> length data" and "length buf \<le> 2 * length data"
    and "list_all (\<lambda>ev. case ev of ReadOk ch \<Rightarrow> True | _ \<Rightarrow> False) evs"
  shows "fst (recv_loop (codec_needs k) sel buf data n evs c) = Blocks"
  using assms
proof (induction evs arbitrary: buf data n)
  case Nil
  then show ?case by (simp add: recv_loop.simps codec_needs_def)
next
  case (Cons ev evs)
  from Cons.prems(4) obtain ch where ev: "ev = ReadOk ch" and rest:
    "list_all (\<lambda>ev. case ev of ReadOk ch \<Rightarrow> True | _ \<Rightarrow> False) evs"
    by (cases ev) simp_all
  let ?n = "min (length ch) (length data)"
  let ?data = "take ?n ch @ drop ?n data"
  have len: "length ?data = length data" by simp
  have step: "recv_loop (codec_needs k) sel buf data n (ev # evs) c =
      recv_loop (codec_needs k) sel (([] @ take n data) @ take ?n ?data) ?data ?n evs c"
    using Cons.prems(1,3) ev by (subst recv_loop.simps) (simp add: codec_needs_def Let_def)
  have "fst (recv_loop (codec_needs k) sel (([] @ take n data) @ take ?n ?data) ?data ?n evs c) = Blocks"
  proof (rule Cons.IH)
    show "2 * length ?data < k" using Cons.prems(1) by (simp only: len)
    show "?n \<le> length ?data" by simp
    show "length (([] @ take n data) @ take ?n ?data) \<le> 2 * length ?data"
      using Cons.prems(2) by simp
    show "list_all (\<lambda>ev. case ev of ReadOk ch \<Rightarrow> True | _ \<Rightarrow> False) evs" by (rule rest)
  qed
  then show ?case by (simp only: step)
qed

lemma Receive_long_message_blocks:
  assumes "2 * maximumReceiveMessageSize c < k" and "ctxErr c = None"
  shows "fst (Receive (codec_needs k) sel (map ReadOk chunks) c) = Blocks"
proof -
  have "list_all (\<lambda>ev. case ev of ReadOk ch \<Rightarrow> True | _ \<Rightarrow> False) (map ReadOk chunks)"
    by (induction chunks) simp_all
  with assms show ?thesis
    by (simp add: Receive_def long_message_never_returned)
qed

lemma Receive_long_message_blocks_witness:
  "fst (Receive (codec_needs 70) CaseChan
       (map ReadOk [replicate 32 1, replicate 32 2, replicate 6 3])
       (Start (newHubConnection None 32 :: nat hub))) = Blocks"
  using Receive_long_message_blocks [of "Start (newHubConnection None 32 :: nat hub)" 70
      CaseChan "[replicate 32 1, replicate 32 2, replicate 6 3]"]
  by (simp add: Start_def newHubConnection_def)

end
